theory Spec2Isabelle
  imports Complex_Main
begin

section \<open>Data model (App.tsx, lines 9-51)\<close>

text \<open>
  The interfaces of App.tsx become records. A field whose name is already taken
  (by HOL's \<open>id\<close>, or by a field of an earlier record) carries a suffix. A
  JavaScript \<open>number\<close> that the code only copies is a \<open>real\<close>; a value
  typed \<open>T | null\<close> is a \<open>T option\<close>. A result row (\<open>any\<close> in the
  source) is opaque to the code and is kept as a list of column/value pairs.
  Strings are lists of 8-bit characters, read as the code units below 256.
\<close>

type_synonym row = "(string \<times> string) list"

record QueryResult =
  success :: bool
  result_rows :: "row list option"
  columns :: "string list option"
  time_ms :: real
  message :: "string option"
  error :: "string option"
  affected_rows :: "int option"

record QueryHistory =
  query_h :: string
  timestamp :: real
  success_h :: bool
  time_ms_h :: real
  affected_rows_h :: "int option"

record Cell =
  id_cell :: string
  query :: string
  result :: "QueryResult option"
  isExecuting :: bool
  isCollapsed :: bool

record ColumnInfo =
  name_col :: string
  type_col :: string
  nullable :: bool
  primary_key_col :: bool
  foreign_key :: "string option"

record ForeignKey =
  column_fk :: string
  references_table :: string
  references_column :: string

record TableInfo =
  name :: string
  columns_t :: "ColumnInfo list"
  primary_key :: "string option"
  foreign_keys :: "ForeignKey list"
  row_count :: int

text \<open>
  The component state of \<open>App\<close> (lines 55-70), without the two flags that
  only show or hide panels. \<open>sessionId\<close> never changes and lives in the closure
  context below.
\<close>

record AppState =
  cells :: "Cell list"
  history :: "QueryHistory list"
  isRunningAll :: bool
  tables :: "TableInfo list"
  isLoadingTables :: bool

section \<open>String and array primitives of the host language\<close>

text \<open>\<open>String.prototype.trim\<close>: the white space code units below 256.\<close>

definition isWhiteSpace :: "char \<Rightarrow> bool" where
  "isWhiteSpace c =
     (c \<in> set [CHR 0x09, CHR 0x0A, CHR 0x0B, CHR 0x0C, CHR 0x0D, CHR 0x20, CHR 0xA0])"

definition trim :: "string \<Rightarrow> string" where
  "trim s = rev (dropWhile isWhiteSpace (rev (dropWhile isWhiteSpace s)))"

text \<open>
  \<open>String.prototype.toUpperCase\<close> on the letters a-z; every other character is
  left as it is.
\<close>

definition toUpperCase_char :: "char \<Rightarrow> char" where
  "toUpperCase_char c =
     (case map_of (zip ''abcdefghijklmnopqrstuvwxyz'' ''ABCDEFGHIJKLMNOPQRSTUVWXYZ'') c of
        Some u \<Rightarrow> u
      | None \<Rightarrow> c)"

definition toUpperCase :: "string \<Rightarrow> string" where
  "toUpperCase s = map toUpperCase_char s"

definition startsWith :: "string \<Rightarrow> string \<Rightarrow> bool" where
  "startsWith s p = (take (length p) s = p)"

text \<open>
  \<open>xs.slice(0, e)\<close>: a negative end counts from the back, and both ends are
  clamped to the array.
\<close>

definition slice0 :: "int \<Rightarrow> 'a list \<Rightarrow> 'a list" where
  "slice0 e xs = (if e < 0 then take (nat (int (length xs) + e)) xs else take (nat e) xs)"

text \<open>\<open>a || b\<close> on optional strings: \<open>undefined\<close> and the empty string are falsy.\<close>

fun orElse :: "string option \<Rightarrow> string option \<Rightarrow> string option" where
  "orElse None b = b"
| "orElse (Some s) b = (if s = [] then b else Some s)"

text \<open>Template literal \<open>`${n}`\<close> of an integer: its decimal digits.\<close>

definition digit :: "nat \<Rightarrow> char" where
  "digit d = ''0123456789'' ! d"

function digits :: "nat \<Rightarrow> string" where
  "digits n = (if n < 10 then [digit n] else digits (n div 10) @ [digit (n mod 10)])"
  by pat_completeness auto
termination
  by (relation "measure (\<lambda>n. n)") auto

declare digits.simps [simp del]

definition toString :: "int \<Rightarrow> string" where
  "toString i = (if i < 0 then CHR ''-'' # digits (nat (- i)) else digits (nat i))"

section \<open>The environment and the closure context\<close>

text \<open>
  What the remote engine answers to \<open>axios.post(.../execute)\<close>: the promise
  resolves with a \<open>QueryResult\<close>, or it rejects with an error of which the
  handler reads \<open>error.response?.data?.error\<close> and \<open>error.message\<close>.
\<close>

datatype exec_response =
    Resolved QueryResult
  | Rejected "string option" "string option"

text \<open>
  The component runs on one event loop. While an \<open>async\<close> function is suspended
  at an \<open>await\<close>, other tasks may change the component state (a table refresh
  arrives, the user edits or deletes a cell). The environment gives, for the
  \<open>k\<close>-th suspension of a run, the answer of the engine, the clock reading
  \<open>Date.now()\<close> on resumption, and what the other tasks did to the state in the
  meantime.
\<close>

record Env =
  respond :: "nat \<Rightarrow> exec_response"
  now :: "nat \<Rightarrow> int"
  interleave :: "nat \<Rightarrow> AppState \<Rightarrow> AppState"

text \<open>
  What a callback created by one render closes over: the \<open>cells\<close> array of that
  render, the session identifier, and the one constant of \<open>config.ts\<close> that
  the orchestration reads (\<open>config.ts\<close> is not part of the sources; the
  constant is a parameter).
\<close>

record Ctx =
  snapshot :: "Cell list"
  sessionId :: string
  MAX_HISTORY_ITEMS :: int

text \<open>
  The observable operations of the orchestrator, in the order in which it
  performs them: the state updates it enqueues and the requests and timers it
  starts.
\<close>

datatype effect =
    SetExecuting string
  | PostExecute string string
  | SetResult string QueryResult
  | AddHistory QueryHistory
  | LoadTables
  | Sleep nat

fun isPostExecute :: "effect \<Rightarrow> bool" where
  "isPostExecute (PostExecute q s) = True"
| "isPostExecute e = False"

fun isSetResult :: "effect \<Rightarrow> bool" where
  "isSetResult (SetResult i r) = True"
| "isSetResult e = False"

fun isAddHistory :: "effect \<Rightarrow> bool" where
  "isAddHistory (AddHistory h) = True"
| "isAddHistory e = False"

section \<open>Table refresh (lines 92-105)\<close>

text \<open>
  \<open>loadTables\<close> runs up to its \<open>await\<close>: the loading flag is set and the
  request is on its way. Its continuation runs when the answer arrives.
\<close>

definition loadTables_dispatch :: "AppState \<Rightarrow> AppState" where
  "loadTables_dispatch st = st\<lparr>isLoadingTables := True\<rparr>"

datatype tables_response =
    TablesData bool "TableInfo list"
  | TablesError

fun loadTables_settle :: "tables_response \<Rightarrow> AppState \<Rightarrow> AppState" where
  "loadTables_settle (TablesData ok ts) st =
     (if ok then st\<lparr>tables := ts, isLoadingTables := False\<rparr>
      else st\<lparr>isLoadingTables := False\<rparr>)"
| "loadTables_settle TablesError st = st\<lparr>isLoadingTables := False\<rparr>"

section \<open>Executing one cell (lines 108-169)\<close>

definition isDDL :: "string \<Rightarrow> bool" where
  "isDDL q =
     (startsWith (toUpperCase (trim q)) ''CREATE TABLE'' \<or>
      startsWith (toUpperCase (trim q)) ''DROP TABLE'')"

definition setCell :: "string \<Rightarrow> (Cell \<Rightarrow> Cell) \<Rightarrow> AppState \<Rightarrow> AppState" where
  "setCell cellId f st =
     st\<lparr>cells := map (\<lambda>c. if id_cell c = cellId then f c else c) (cells st)\<rparr>"

definition historyItem :: "Cell \<Rightarrow> int \<Rightarrow> QueryResult \<Rightarrow> QueryHistory" where
  "historyItem cell t r =
     \<lparr>query_h = query cell, timestamp = real_of_int t / 1000, success_h = success r,
      time_ms_h = time_ms r, affected_rows_h = affected_rows r\<rparr>"

definition addHistory :: "int \<Rightarrow> QueryHistory \<Rightarrow> QueryHistory list \<Rightarrow> QueryHistory list" where
  "addHistory maxItems item prev = item # slice0 (maxItems - 1) prev"

definition errorResult :: "string option \<Rightarrow> string option \<Rightarrow> QueryResult" where
  "errorResult responseError errorMessage =
     \<lparr>success = False, result_rows = None, columns = None, time_ms = 0, message = None,
      error = orElse responseError (orElse errorMessage (Some ''Unknown error'')),
      affected_rows = None\<rparr>"

text \<open>
  The continuation of \<open>executeCell\<close> after \<open>await axios.post\<close>: the rest of
  the \<open>try\<close> block when the promise resolved, the \<open>catch\<close> block when it
  rejected. \<open>t\<close> is the clock reading \<open>Date.now()\<close>.
\<close>

fun executeCell_settle ::
  "Ctx \<Rightarrow> string \<Rightarrow> Cell \<Rightarrow> int \<Rightarrow> exec_response \<Rightarrow> AppState
     \<Rightarrow> AppState \<times> effect list" where
  "executeCell_settle ctx cellId cell t (Resolved r) st =
     (let st1 = setCell cellId (\<lambda>c. c\<lparr>result := Some r, isExecuting := False\<rparr>) st;
          item = historyItem cell t r;
          st2 = st1\<lparr>history := addHistory (MAX_HISTORY_ITEMS ctx) item (history st1)\<rparr>
      in if success r \<and> isDDL (query cell)
         then (loadTables_dispatch st2, [SetResult cellId r, AddHistory item, LoadTables])
         else (st2, [SetResult cellId r, AddHistory item]))"
| "executeCell_settle ctx cellId cell t (Rejected responseError errorMessage) st =
     (let e = errorResult responseError errorMessage
      in (setCell cellId (\<lambda>c. c\<lparr>result := Some e, isExecuting := False\<rparr>) st,
          [SetResult cellId e]))"

declare executeCell_settle.simps [simp del]

text \<open>
  \<open>executeCell\<close> itself. The cell is looked up in the \<open>cells\<close> array of the
  closure, and the query sent and recorded is the one of that array; the state
  updates go through updater functions and so act on the current state.
\<close>

definition executeCell ::
  "Env \<Rightarrow> Ctx \<Rightarrow> nat \<Rightarrow> string \<Rightarrow> AppState \<Rightarrow> AppState \<times> effect list" where
  "executeCell env ctx k cellId st =
     (case find (\<lambda>c. id_cell c = cellId) (snapshot ctx) of
        None \<Rightarrow> (st, [])
      | Some cell \<Rightarrow>
          if trim (query cell) = [] then (st, [])
          else
            let st1 = setCell cellId (\<lambda>c. c\<lparr>isExecuting := True, result := None\<rparr>) st;
                st2 = interleave env k st1;
                (st3, es) = executeCell_settle ctx cellId cell (now env k) (respond env k) st2
            in (st3, [SetExecuting cellId, PostExecute (query cell) (sessionId ctx)] @ es))"

text \<open>
  The state in which \<open>executeCell\<close> resumes after its \<open>await\<close>: the
  cell was marked as executing, then the other tasks ran.
\<close>

definition awaiting :: "Env \<Rightarrow> nat \<Rightarrow> string \<Rightarrow> AppState \<Rightarrow> AppState" where
  "awaiting env k cellId st =
     interleave env k (setCell cellId (\<lambda>c. c\<lparr>isExecuting := True, result := None\<rparr>) st)"

section \<open>Executing all cells (lines 172-184)\<close>

text \<open>
  The loop runs over the \<open>cells\<close> array of the closure and calls the
  \<open>executeCell\<close> of the same render. Each executed cell takes two
  suspensions: the request and the 100 ms timer.
\<close>

fun runLoop ::
  "Env \<Rightarrow> Ctx \<Rightarrow> nat \<Rightarrow> Cell list \<Rightarrow> AppState \<Rightarrow> AppState \<times> effect list" where
  "runLoop env ctx k [] st = (st, [])"
| "runLoop env ctx k (cell # rest) st =
     (if trim (query cell) \<noteq> [] then
        let (st1, es1) = executeCell env ctx k (id_cell cell) st;
            st2 = interleave env (Suc k) st1;
            (st3, es3) = runLoop env ctx (k + 2) rest st2
        in (st3, es1 @ [Sleep 100] @ es3)
      else runLoop env ctx k rest st)"

definition executeAllCells ::
  "Env \<Rightarrow> Ctx \<Rightarrow> nat \<Rightarrow> AppState \<Rightarrow> AppState \<times> effect list" where
  "executeAllCells env ctx k st =
     (let (st1, es) = runLoop env ctx k (snapshot ctx) (st\<lparr>isRunningAll := True\<rparr>)
      in (st1\<lparr>isRunningAll := False\<rparr>, es))"

section \<open>Cell store commands (lines 187-216) and the run button (lines 317-321)\<close>

definition newCell :: "int \<Rightarrow> Cell" where
  "newCell t =
     \<lparr>id_cell = ''cell-'' @ toString t, query = [], result = None,
      isExecuting = False, isCollapsed = False\<rparr>"

definition addCell :: "int \<Rightarrow> AppState \<Rightarrow> AppState" where
  "addCell t st = st\<lparr>cells := cells st @ [newCell t]\<rparr>"

text \<open>
  \<open>deleteCell\<close> tests the length of the \<open>cells\<close> array of its closure
  (its first argument here) and then filters the current state.
\<close>

definition deleteCell :: "Cell list \<Rightarrow> string \<Rightarrow> AppState \<Rightarrow> AppState" where
  "deleteCell closureCells cellId st =
     (if length closureCells \<le> 1 then st
      else st\<lparr>cells := filter (\<lambda>c. id_cell c \<noteq> cellId) (cells st)\<rparr>)"

definition updateCellQuery :: "string \<Rightarrow> string \<Rightarrow> AppState \<Rightarrow> AppState" where
  "updateCellQuery cellId q st = setCell cellId (\<lambda>c. c\<lparr>query := q\<rparr>) st"

definition toggleCellCollapse :: "string \<Rightarrow> AppState \<Rightarrow> AppState" where
  "toggleCellCollapse cellId st = setCell cellId (\<lambda>c. c\<lparr>isCollapsed := \<not> isCollapsed c\<rparr>) st"

text \<open>The \<open>disabled\<close> attribute of a cell's Run button, and a click on it.\<close>

definition runDisabled :: "Cell \<Rightarrow> bool" where
  "runDisabled cell = (isExecuting cell \<or> trim (query cell) = [])"

definition clickRun ::
  "Env \<Rightarrow> Ctx \<Rightarrow> nat \<Rightarrow> Cell \<Rightarrow> AppState \<Rightarrow> AppState \<times> effect list" where
  "clickRun env ctx k cell st =
     (if runDisabled cell then (st, []) else executeCell env ctx k (id_cell cell) st)"

text \<open>
  The initial state (lines 55-69), and the notebook driven by Add and Delete
  clicks. Every click is handled by the callbacks of the latest render, so
  their closure holds the current \<open>cells\<close>. \<open>Add t\<close> is a click on Add Cell
  at clock reading \<open>t\<close>.
\<close>

definition initialState :: "string \<Rightarrow> AppState" where
  "initialState defaultQuery =
     \<lparr>cells = [\<lparr>id_cell = ''cell-1'', query = defaultQuery, result = None,
               isExecuting = False, isCollapsed = False\<rparr>],
      history = [], isRunningAll = False, tables = [], isLoadingTables = False\<rparr>"

datatype command = Add int | Delete string

fun click :: "command \<Rightarrow> AppState \<Rightarrow> AppState" where
  "click (Add t) st = addCell t st"
| "click (Delete cellId) st = deleteCell (cells st) cellId st"

definition clicks :: "command list \<Rightarrow> AppState \<Rightarrow> AppState" where
  "clicks cmds st = fold click cmds st"

section \<open>History as a sequence of appends (line 142)\<close>

text \<open>The history after the entries \<open>items\<close> were added one by one, first to last.\<close>

definition addHistoryAll ::
  "int \<Rightarrow> QueryHistory list \<Rightarrow> QueryHistory list \<Rightarrow> QueryHistory list" where
  "addHistoryAll maxItems items prev = fold (addHistory maxItems) items prev"

section \<open>Vocabulary of the properties\<close>

definition nonBlank :: "Cell \<Rightarrow> bool" where
  "nonBlank c = (trim (query c) \<noteq> [])"

text \<open>
  A run is sequential when its operations can be read as one cell after the
  other: the cell is marked, its request is sent, the result is attached to the
  same cell, then the history entry is added (if any), then the table refresh
  is started (if any), then 100 ms pass. A request in any other position is
  rejected with \<open>None\<close>.
\<close>

datatype phase = Ready | Marked string | InFlight string | Attached | Logged | Dispatched

fun sequentialRun :: "phase \<Rightarrow> effect list \<Rightarrow> phase option" where
  "sequentialRun p [] = Some p"
| "sequentialRun Ready (SetExecuting i # es) = sequentialRun (Marked i) es"
| "sequentialRun Ready (Sleep n # es) = sequentialRun Ready es"
| "sequentialRun (Marked i) (PostExecute q s # es) = sequentialRun (InFlight i) es"
| "sequentialRun (InFlight i) (SetResult j r # es) =
     (if i = j then sequentialRun Attached es else None)"
| "sequentialRun Attached (AddHistory h # es) = sequentialRun Logged es"
| "sequentialRun Attached (Sleep n # es) = (if n = 100 then sequentialRun Ready es else None)"
| "sequentialRun Logged (LoadTables # es) = sequentialRun Dispatched es"
| "sequentialRun Logged (Sleep n # es) = (if n = 100 then sequentialRun Ready es else None)"
| "sequentialRun Dispatched (Sleep n # es) = (if n = 100 then sequentialRun Ready es else None)"
| "sequentialRun p (e # es) = None"

text \<open>
  The operations that a sequential run must perform for one cell, given the
  answer to its request: mark, send, attach the result; add a history entry only
  when the request resolved; start a table refresh only when the resolved result
  reports success on a table statement; then pause. \<open>runTrace\<close> puts the
  cells one after the other, two suspensions each.
\<close>

definition cellTrace :: "Env \<Rightarrow> Ctx \<Rightarrow> nat \<Rightarrow> Cell \<Rightarrow> effect list" where
  "cellTrace env ctx k c =
     [SetExecuting (id_cell c), PostExecute (query c) (sessionId ctx)] @
     (case respond env k of
        Resolved r \<Rightarrow>
          [SetResult (id_cell c) r, AddHistory (historyItem c (now env k) r)] @
          (if success r \<and> isDDL (query c) then [LoadTables] else [])
      | Rejected a b \<Rightarrow> [SetResult (id_cell c) (errorResult a b)]) @
     [Sleep 100]"

fun runTrace :: "Env \<Rightarrow> Ctx \<Rightarrow> nat \<Rightarrow> Cell list \<Rightarrow> effect list" where
  "runTrace env ctx k [] = []"
| "runTrace env ctx k (c # cs) = cellTrace env ctx k c @ runTrace env ctx (k + 2) cs"

section \<open>Example inputs\<close>

definition okResult :: QueryResult where
  "okResult =
     \<lparr>success = True, result_rows = None, columns = None, time_ms = 1,
      message = Some ''ok'', error = None, affected_rows = Some 0\<rparr>"

definition ddlCell :: Cell where
  "ddlCell =
     \<lparr>id_cell = ''cell-1'', query = ''  create table t (id int primary key);'',
      result = None, isExecuting = False, isCollapsed = False\<rparr>"

definition selectCell :: Cell where
  "selectCell =
     \<lparr>id_cell = ''cell-2'', query = ''SELECT * FROM t;'', result = None,
      isExecuting = False, isCollapsed = False\<rparr>"

definition blankCell :: Cell where
  "blankCell =
     \<lparr>id_cell = ''cell-3'', query = ''   '', result = None, isExecuting = False,
      isCollapsed = False\<rparr>"

definition busyCell :: Cell where
  "busyCell =
     \<lparr>id_cell = ''cell-1'', query = ''SELECT 1;'', result = None, isExecuting = True,
      isCollapsed = False\<rparr>"

text \<open>
  An environment in which every request gets the same answer, the clock stands
  at 5000 ms, and no other task touches the state (in particular no table
  refresh completes).
\<close>

definition quietEnv :: "exec_response \<Rightarrow> Env" where
  "quietEnv r = \<lparr>respond = (\<lambda>k. r), now = (\<lambda>k. 5000), interleave = (\<lambda>k st. st)\<rparr>"

definition networkDown :: exec_response where
  "networkDown = Rejected None (Some ''Network Error'')"

text \<open>
  The engine refuses the statement and answers with status 400 and an error
  body: \<open>axios\<close> rejects the promise, with the body in \<open>error.response\<close>.
\<close>

definition engineError :: exec_response where
  "engineError = Rejected (Some ''Table not found'') (Some ''Request failed with status code 400'')"

definition closureOf :: "Cell list \<Rightarrow> Ctx" where
  "closureOf cs = \<lparr>snapshot = cs, sessionId = ''session-7'', MAX_HISTORY_ITEMS = 20\<rparr>"

definition storeOf :: "Cell list \<Rightarrow> AppState" where
  "storeOf cs =
     \<lparr>cells = cs, history = [], isRunningAll = False, tables = [], isLoadingTables = False\<rparr>"

definition entry :: "string \<Rightarrow> QueryHistory" where
  "entry q =
     \<lparr>query_h = q, timestamp = 5, success_h = True, time_ms_h = 1, affected_rows_h = None\<rparr>"

section \<open>Auxiliary facts\<close>

lemma cells_setCell:
  "cells (setCell i f st) = map (\<lambda>c. if id_cell c = i then f c else c) (cells st)"
  by (simp add: setCell_def)

lemma history_setCell: "history (setCell i f st) = history st"
  by (simp add: setCell_def)

lemma cells_loadTables_dispatch: "cells (loadTables_dispatch st) = cells st"
  by (simp add: loadTables_dispatch_def)

lemma history_loadTables_dispatch: "history (loadTables_dispatch st) = history st"
  by (simp add: loadTables_dispatch_def)

text \<open>A query trims to the empty string exactly when it is empty or all white space.\<close>

lemma trim_empty_iff: "trim s = [] \<longleftrightarrow> list_all isWhiteSpace s"
proof
  assume "trim s = []"
  then have all: "\<forall>c \<in> set (dropWhile isWhiteSpace s). isWhiteSpace c"
    by (simp add: trim_def dropWhile_eq_Nil_conv)
  have "dropWhile isWhiteSpace s = []"
  proof (rule ccontr)
    assume ne: "dropWhile isWhiteSpace s \<noteq> []"
    then have "\<not> isWhiteSpace (hd (dropWhile isWhiteSpace s))"
      by (rule hd_dropWhile)
    moreover have "hd (dropWhile isWhiteSpace s) \<in> set (dropWhile isWhiteSpace s)"
      using ne by (rule hd_in_set)
    ultimately show False using all by blast
  qed
  then show "list_all isWhiteSpace s"
    by (simp only: dropWhile_eq_Nil_conv list_all_iff)
next
  assume "list_all isWhiteSpace s"
  then have "dropWhile isWhiteSpace s = []"
    by (simp only: dropWhile_eq_Nil_conv list_all_iff)
  then show "trim s = []"
    by (simp add: trim_def del: dropWhile_eq_Nil_conv)
qed

lemma ids_map_update:
  assumes "\<And>c. id_cell (f c) = id_cell c"
  shows "map id_cell (map (\<lambda>c. if id_cell c = i then f c else c) cs) = map id_cell cs"
  using assms by (induction cs) auto

lemma find_distinct:
  "distinct (map id_cell cs) \<Longrightarrow> c \<in> set cs \<Longrightarrow>
   find (\<lambda>x. id_cell x = id_cell c) cs = Some c"
  by (induction cs) (auto simp: image_iff)

subsection \<open>One cell\<close>

lemma executeCell_run:
  assumes "find (\<lambda>c. id_cell c = cellId) (snapshot ctx) = Some cell"
      and "trim (query cell) \<noteq> []"
  shows "executeCell env ctx k cellId st =
     (fst (executeCell_settle ctx cellId cell (now env k) (respond env k)
             (awaiting env k cellId st)),
      [SetExecuting cellId, PostExecute (query cell) (sessionId ctx)] @
      snd (executeCell_settle ctx cellId cell (now env k) (respond env k)
             (awaiting env k cellId st)))"
  using assms by (simp add: executeCell_def awaiting_def Let_def split: prod.splits)

lemma settle_cells:
  "cells (fst (executeCell_settle ctx i cell t resp st)) =
     map (\<lambda>c. if id_cell c = i
              then c\<lparr>result := Some (case resp of Resolved r \<Rightarrow> r
                                      | Rejected a b \<Rightarrow> errorResult a b),
                      isExecuting := False\<rparr>
              else c) (cells st)"
  by (cases resp)
     (simp_all add: executeCell_settle.simps Let_def cells_setCell cells_loadTables_dispatch)

lemma settle_effects:
  "snd (executeCell_settle ctx i cell t resp st) =
     (case resp of
        Resolved r \<Rightarrow>
          [SetResult i r, AddHistory (historyItem cell t r)] @
          (if success r \<and> isDDL (query cell) then [LoadTables] else [])
      | Rejected a b \<Rightarrow> [SetResult i (errorResult a b)])"
  by (cases resp) (simp_all add: executeCell_settle.simps Let_def)

lemma settle_history:
  "history (fst (executeCell_settle ctx i cell t resp st)) =
     (case resp of
        Resolved r \<Rightarrow> addHistory (MAX_HISTORY_ITEMS ctx) (historyItem cell t r) (history st)
      | Rejected a b \<Rightarrow> history st)"
  by (cases resp)
     (simp_all add: executeCell_settle.simps Let_def history_setCell
        history_loadTables_dispatch)

lemma executeCell_effects_cases:
  "snd (executeCell env ctx k cellId st) = [] \<or>
   (\<exists>cell. snd (executeCell env ctx k cellId st) =
        [SetExecuting cellId, PostExecute (query cell) (sessionId ctx)] @
        snd (executeCell_settle ctx cellId cell (now env k) (respond env k)
               (awaiting env k cellId st)))"
proof (cases "find (\<lambda>c. id_cell c = cellId) (snapshot ctx)")
  case None
  then show ?thesis by (simp add: executeCell_def)
next
  case (Some cell)
  show ?thesis
  proof (cases "trim (query cell) = []")
    case True
    with Some show ?thesis by (simp add: executeCell_def)
  next
    case False
    with Some have "snd (executeCell env ctx k cellId st) =
        [SetExecuting cellId, PostExecute (query cell) (sessionId ctx)] @
        snd (executeCell_settle ctx cellId cell (now env k) (respond env k)
               (awaiting env k cellId st))"
      by (simp add: executeCell_run)
    then show ?thesis by blast
  qed
qed

lemma posts_executeCell:
  assumes "find (\<lambda>c. id_cell c = cellId) (snapshot ctx) = Some cell"
      and "trim (query cell) \<noteq> []"
  shows "filter isPostExecute (snd (executeCell env ctx k cellId st)) =
           [PostExecute (query cell) (sessionId ctx)]"
  by (cases "respond env k") (simp_all add: executeCell_run [OF assms] settle_effects)

subsection \<open>All cells\<close>

lemma runLoop_Cons:
  "runLoop env ctx k (cell # rest) st =
     (if trim (query cell) \<noteq> [] then
        (fst (runLoop env ctx (k + 2) rest
                (interleave env (Suc k) (fst (executeCell env ctx k (id_cell cell) st)))),
         snd (executeCell env ctx k (id_cell cell) st) @ [Sleep 100] @
         snd (runLoop env ctx (k + 2) rest
                (interleave env (Suc k) (fst (executeCell env ctx k (id_cell cell) st)))))
      else runLoop env ctx k rest st)"
  by (simp add: Let_def split: prod.splits)

lemma snd_executeAllCells:
  "snd (executeAllCells env ctx k st) =
     snd (runLoop env ctx k (snapshot ctx) (st\<lparr>isRunningAll := True\<rparr>))"
  by (simp add: executeAllCells_def split: prod.splits)

lemma sequentialRun_append:
  "sequentialRun p (es @ es') =
     (case sequentialRun p es of None \<Rightarrow> None | Some p' \<Rightarrow> sequentialRun p' es')"
  by (induction p es rule: sequentialRun.induct) simp_all

lemma sequentialRun_settle:
  "sequentialRun (InFlight i) (snd (executeCell_settle ctx i cell t resp st) @ [Sleep 100]) =
     Some Ready"
  by (cases resp) (simp_all add: settle_effects)

lemma sequentialRun_executeCell:
  "sequentialRun Ready (snd (executeCell env ctx k cellId st) @ [Sleep 100]) = Some Ready"
proof -
  from executeCell_effects_cases [of env ctx k cellId st]
  show ?thesis
  proof
    assume "snd (executeCell env ctx k cellId st) = []"
    then show ?thesis by simp
  next
    assume "\<exists>cell. snd (executeCell env ctx k cellId st) =
        [SetExecuting cellId, PostExecute (query cell) (sessionId ctx)] @
        snd (executeCell_settle ctx cellId cell (now env k) (respond env k)
               (awaiting env k cellId st))"
    then obtain cell where
      "snd (executeCell env ctx k cellId st) =
        [SetExecuting cellId, PostExecute (query cell) (sessionId ctx)] @
        snd (executeCell_settle ctx cellId cell (now env k) (respond env k)
               (awaiting env k cellId st))"
      by blast
    then show ?thesis
      by (simp add: sequentialRun_settle)
  qed
qed

lemma sequentialRun_runLoop:
  "sequentialRun Ready (snd (runLoop env ctx k rest st)) = Some Ready"
proof (induction rest arbitrary: k st)
  case Nil
  show ?case by simp
next
  case (Cons cell rest)
  show ?case
  proof (cases "trim (query cell) \<noteq> []")
    case True
    let ?st' = "interleave env (Suc k) (fst (executeCell env ctx k (id_cell cell) st))"
    have "snd (runLoop env ctx k (cell # rest) st) =
        (snd (executeCell env ctx k (id_cell cell) st) @ [Sleep 100]) @
        snd (runLoop env ctx (k + 2) rest ?st')"
      using True by (simp add: runLoop_Cons del: runLoop.simps)
    then have "sequentialRun Ready (snd (runLoop env ctx k (cell # rest) st)) =
        (case sequentialRun Ready (snd (executeCell env ctx k (id_cell cell) st) @ [Sleep 100]) of
           None \<Rightarrow> None
         | Some p' \<Rightarrow> sequentialRun p' (snd (runLoop env ctx (k + 2) rest ?st')))"
      by (simp only: sequentialRun_append
            [of Ready "snd (executeCell env ctx k (id_cell cell) st) @ [Sleep 100]"])
    then show ?thesis
      by (simp only: sequentialRun_executeCell Cons.IH option.case)
  next
    case False
    then show ?thesis by (simp add: Cons.IH)
  qed
qed

lemma posts_runLoop:
  assumes "distinct (map id_cell (snapshot ctx))" and "set rest \<subseteq> set (snapshot ctx)"
  shows "filter isPostExecute (snd (runLoop env ctx k rest st)) =
           map (\<lambda>c. PostExecute (query c) (sessionId ctx)) (filter nonBlank rest)"
  using assms(2)
proof (induction rest arbitrary: k st)
  case Nil
  show ?case by simp
next
  case (Cons cell rest)
  then have sub: "set rest \<subseteq> set (snapshot ctx)" and mem: "cell \<in> set (snapshot ctx)"
    by simp_all
  show ?case
  proof (cases "trim (query cell) \<noteq> []")
    case True
    have found: "find (\<lambda>c. id_cell c = id_cell cell) (snapshot ctx) = Some cell"
      using assms(1) mem by (rule find_distinct)
    show ?thesis
      using True
      by (simp add: runLoop_Cons posts_executeCell [OF found True] Cons.IH [OF sub]
          nonBlank_def del: runLoop.simps)
  next
    case False
    then show ?thesis by (simp add: Cons.IH [OF sub] nonBlank_def)
  qed
qed

lemma trace_executeCell:
  assumes "find (\<lambda>c. id_cell c = cellId) (snapshot ctx) = Some cell"
      and "trim (query cell) \<noteq> []" and "id_cell cell = cellId"
  shows "snd (executeCell env ctx k cellId st) @ [Sleep 100] = cellTrace env ctx k cell"
  using assms(3)
  by (cases "respond env k")
     (simp_all add: executeCell_run [OF assms(1,2)] settle_effects cellTrace_def)

lemma trace_runLoop:
  assumes "distinct (map id_cell (snapshot ctx))" and "set rest \<subseteq> set (snapshot ctx)"
  shows "snd (runLoop env ctx k rest st) = runTrace env ctx k (filter nonBlank rest)"
  using assms(2)
proof (induction rest arbitrary: k st)
  case Nil
  show ?case by simp
next
  case (Cons cell rest)
  then have sub: "set rest \<subseteq> set (snapshot ctx)" and mem: "cell \<in> set (snapshot ctx)"
    by simp_all
  show ?case
  proof (cases "trim (query cell) \<noteq> []")
    case True
    let ?st' = "interleave env (Suc k) (fst (executeCell env ctx k (id_cell cell) st))"
    have found: "find (\<lambda>c. id_cell c = id_cell cell) (snapshot ctx) = Some cell"
      using assms(1) mem by (rule find_distinct)
    have one: "snd (executeCell env ctx k (id_cell cell) st) @ [Sleep 100] =
        cellTrace env ctx k cell"
      using found True by (rule trace_executeCell) simp
    have "snd (runLoop env ctx k (cell # rest) st) =
        (snd (executeCell env ctx k (id_cell cell) st) @ [Sleep 100]) @
        snd (runLoop env ctx (k + 2) rest ?st')"
      using True by (simp add: runLoop_Cons del: runLoop.simps)
    also have "\<dots> = cellTrace env ctx k cell @ runTrace env ctx (k + 2) (filter nonBlank rest)"
      by (simp only: one Cons.IH [OF sub])
    finally have run: "snd (runLoop env ctx k (cell # rest) st) =
        cellTrace env ctx k cell @ runTrace env ctx (k + 2) (filter nonBlank rest)" .
    have nb: "filter nonBlank (cell # rest) = cell # filter nonBlank rest"
      using True by (simp add: nonBlank_def)
    show ?thesis
      by (simp only: run nb runTrace.simps)
  next
    case False
    then show ?thesis by (simp add: Cons.IH [OF sub] nonBlank_def)
  qed
qed

lemma trace_executeAllCells:
  assumes "distinct (map id_cell (snapshot ctx))"
  shows "snd (executeAllCells env ctx k st) =
           runTrace env ctx k (filter nonBlank (snapshot ctx))"
  using assms by (simp add: snd_executeAllCells trace_runLoop)

lemma posts_executeAllCells:
  assumes "distinct (map id_cell (snapshot ctx))"
  shows "filter isPostExecute (snd (executeAllCells env ctx k st)) =
           map (\<lambda>c. PostExecute (query c) (sessionId ctx)) (filter nonBlank (snapshot ctx))"
  using assms by (simp add: snd_executeAllCells posts_runLoop)

section \<open>Running one cell\<close>

text \<open>
  Claim C10, as stated, fails: the id is looked up in the \<open>cells\<close> array of
  the closure, not in the store. Called for a cell that is still in that array
  but no longer in the store (it was deleted while run-all was under way),
  \<open>executeCell\<close> sends the request and adds a history entry.
\<close>

theorem executeCell_deleted_cell_counterexample:
  "''cell-2'' \<notin> set (map id_cell (cells (storeOf [ddlCell]))) \<and>
   snd (executeCell (quietEnv (Resolved okResult)) (closureOf [ddlCell, selectCell]) 0 ''cell-2''
          (storeOf [ddlCell])) =
     [SetExecuting ''cell-2'', PostExecute ''SELECT * FROM t;'' ''session-7'',
      SetResult ''cell-2'' okResult, AddHistory (historyItem selectCell 5000 okResult)] \<and>
   history (fst (executeCell (quietEnv (Resolved okResult)) (closureOf [ddlCell, selectCell]) 0
          ''cell-2'' (storeOf [ddlCell]))) = [historyItem selectCell 5000 okResult]"
  by (simp add: executeCell_def executeCell_settle.simps closureOf_def storeOf_def ddlCell_def
      selectCell_def quietEnv_def okResult_def trim_def isWhiteSpace_def isDDL_def
      toUpperCase_def toUpperCase_char_def startsWith_def Let_def setCell_def addHistory_def
      slice0_def)

text \<open>
  Claim C10, amended. \<open>executeCell\<close> called with an id that no cell of the
  \<open>cells\<close> array of its closure has is a no-op: the state is returned as it
  was, and no request, state update or table refresh is started. For a click on
  the current render that array is the store; inside a run-all it is the array
  the run started from.
\<close>

theorem executeCell_unknown_id_noop:
  assumes "cellId \<notin> set (map id_cell (snapshot ctx))"
  shows "executeCell env ctx k cellId st = (st, [])"
proof -
  have "find (\<lambda>c. id_cell c = cellId) (snapshot ctx) = None"
    using assms by (auto simp: find_None_iff)
  then show ?thesis by (simp add: executeCell_def)
qed

theorem executeCell_unknown_id_noop_witness:
  "''cell-9'' \<notin> set (map id_cell (snapshot (closureOf (cells (storeOf [ddlCell, selectCell]))))) \<and>
   executeCell (quietEnv (Resolved okResult)) (closureOf (cells (storeOf [ddlCell, selectCell])))
     0 ''cell-9'' (storeOf [ddlCell, selectCell]) = (storeOf [ddlCell, selectCell], [])"
proof -
  have h: "''cell-9'' \<notin>
      set (map id_cell (snapshot (closureOf (cells (storeOf [ddlCell, selectCell])))))"
    by (simp add: closureOf_def storeOf_def ddlCell_def selectCell_def)
  from h executeCell_unknown_id_noop [OF h] show ?thesis by (rule conjI)
qed

text \<open>
  Claim C5, as stated, fails: \<open>executeCell\<close> has no test of \<open>isExecuting\<close>.
  Called for a cell that is already executing and whose query is not blank, it
  marks the cell again and sends a second request.
\<close>

theorem executeCell_busy_cell_counterexample:
  "isExecuting busyCell \<and>
   snd (executeCell (quietEnv (Resolved okResult)) (closureOf [busyCell]) 0 ''cell-1''
          (storeOf [busyCell])) =
     [SetExecuting ''cell-1'', PostExecute ''SELECT 1;'' ''session-7'',
      SetResult ''cell-1'' okResult, AddHistory (historyItem busyCell 5000 okResult)]"
  by (simp add: executeCell_def executeCell_settle.simps closureOf_def storeOf_def busyCell_def
      quietEnv_def okResult_def trim_def isWhiteSpace_def isDDL_def toUpperCase_def
      toUpperCase_char_def startsWith_def Let_def)

text \<open>
  Claim C5, amended. \<open>executeCell\<close> is a no-op when the query it reads for the
  targeted cell is empty or consists of white space only; it reads the query
  from the \<open>cells\<close> array of its closure (the store for a click on the current
  render, the array the run started from inside a run-all). The test for a cell
  that is already executing is not in \<open>executeCell\<close> but on the cell's Run
  button: the button is disabled while the cell is executing or its query is
  blank, and a click on it then starts nothing.
\<close>

theorem executeCell_blank_noop:
  assumes "find (\<lambda>c. id_cell c = cellId) (snapshot ctx) = Some cell"
      and "list_all isWhiteSpace (query cell)"
  shows "executeCell env ctx k cellId st = (st, []) \<and>
         clickRun env ctx k cell st = (st, []) \<and>
         clickRun env ctx k (other\<lparr>isExecuting := True\<rparr>) st = (st, [])"
proof -
  have blank: "trim (query cell) = []"
    using assms(2) by (simp only: trim_empty_iff)
  have "executeCell env ctx k cellId st = (st, [])"
    using assms(1) blank by (simp add: executeCell_def)
  moreover have "clickRun env ctx k cell st = (st, [])"
    using blank by (simp add: clickRun_def runDisabled_def)
  moreover have "clickRun env ctx k (other\<lparr>isExecuting := True\<rparr>) st = (st, [])"
    by (simp add: clickRun_def runDisabled_def)
  ultimately show ?thesis by blast
qed

theorem executeCell_blank_noop_witness:
  "find (\<lambda>c. id_cell c = ''cell-3'') (snapshot (closureOf [ddlCell, blankCell])) = Some blankCell \<and>
   list_all isWhiteSpace (query blankCell) \<and>
   executeCell (quietEnv (Resolved okResult)) (closureOf [ddlCell, blankCell]) 0 ''cell-3''
     (storeOf [ddlCell, blankCell]) = (storeOf [ddlCell, blankCell], []) \<and>
   clickRun (quietEnv (Resolved okResult)) (closureOf [ddlCell, blankCell]) 0 blankCell
     (storeOf [ddlCell, blankCell]) = (storeOf [ddlCell, blankCell], []) \<and>
   clickRun (quietEnv (Resolved okResult)) (closureOf [ddlCell, blankCell]) 0
     (ddlCell\<lparr>isExecuting := True\<rparr>) (storeOf [ddlCell, blankCell]) =
     (storeOf [ddlCell, blankCell], [])"
proof -
  have f: "find (\<lambda>c. id_cell c = ''cell-3'') (snapshot (closureOf [ddlCell, blankCell])) =
      Some blankCell"
    by (simp add: closureOf_def ddlCell_def blankCell_def)
  have b: "list_all isWhiteSpace (query blankCell)"
    by (simp add: blankCell_def isWhiteSpace_def)
  from f b executeCell_blank_noop [OF f b] show ?thesis by blast
qed

text \<open>
  The query is the one of the closure: when the text of a cell was cleared after
  the render that the callback belongs to, the request is still sent.
\<close>

lemma executeCell_reads_closure_query:
  "trim (query (hd (cells (storeOf [selectCell\<lparr>query := []\<rparr>])))) = [] \<and>
   snd (executeCell (quietEnv (Resolved okResult)) (closureOf [selectCell]) 0 ''cell-2''
          (storeOf [selectCell\<lparr>query := []\<rparr>])) =
     [SetExecuting ''cell-2'', PostExecute ''SELECT * FROM t;'' ''session-7'',
      SetResult ''cell-2'' okResult, AddHistory (historyItem selectCell 5000 okResult)]"
  by (simp add: executeCell_def executeCell_settle.simps closureOf_def storeOf_def
      selectCell_def quietEnv_def okResult_def trim_def isWhiteSpace_def isDDL_def
      toUpperCase_def toUpperCase_char_def startsWith_def Let_def)

text \<open>
  Claim C2. When \<open>executeCell\<close> has started (the cell is in the array of the
  closure and its query is not blank) and the request settles, whatever the
  answer (a result that reports success, a result that reports failure, or a
  rejected promise) and whatever the other tasks did to the state in the
  meantime: every cell of the store with the targeted id is not executing and
  has a result, no cell was added or lost by the settling, and the state update
  that leaves the executing state was issued exactly once.
\<close>

theorem executeCell_leaves_executing:
  assumes found: "find (\<lambda>c. id_cell c = cellId) (snapshot ctx) = Some cell"
      and nonblank: "trim (query cell) \<noteq> []"
  shows "(\<forall>c \<in> set (cells (fst (executeCell env ctx k cellId st))).
            id_cell c = cellId \<longrightarrow> \<not> isExecuting c \<and> result c \<noteq> None) \<and>
         map id_cell (cells (fst (executeCell env ctx k cellId st))) =
           map id_cell (cells (awaiting env k cellId st)) \<and>
         length (filter isSetResult (snd (executeCell env ctx k cellId st))) = 1"
proof -
  let ?resp = "respond env k"
  let ?mid = "awaiting env k cellId st"
  let ?out = "executeCell_settle ctx cellId cell (now env k) ?resp ?mid"
  have run: "executeCell env ctx k cellId st =
      (fst ?out, [SetExecuting cellId, PostExecute (query cell) (sessionId ctx)] @ snd ?out)"
    using found nonblank by (rule executeCell_run)
  have flags: "\<forall>c \<in> set (cells (fst ?out)).
      id_cell c = cellId \<longrightarrow> \<not> isExecuting c \<and> result c \<noteq> None"
  proof (intro ballI impI)
    fix c
    assume "c \<in> set (cells (fst ?out))" and i: "id_cell c = cellId"
    then obtain c0 where c: "c = (if id_cell c0 = cellId
               then c0\<lparr>result := Some (case ?resp of Resolved r \<Rightarrow> r
                                        | Rejected a b \<Rightarrow> errorResult a b),
                       isExecuting := False\<rparr>
               else c0)"
      unfolding settle_cells by (auto simp only: set_map image_iff)
    show "\<not> isExecuting c \<and> result c \<noteq> None"
    proof (cases "id_cell c0 = cellId")
      case True
      with c show ?thesis by simp
    next
      case False
      with c i show ?thesis by simp
    qed
  qed
  have ids: "map id_cell (cells (fst ?out)) = map id_cell (cells ?mid)"
    unfolding settle_cells by (rule ids_map_update) simp
  have once: "length (filter isSetResult (snd ?out)) = 1"
    by (cases ?resp) (simp_all add: settle_effects)
  show ?thesis
    using flags ids once by (simp add: run)
qed

theorem executeCell_leaves_executing_witness:
  "find (\<lambda>c. id_cell c = ''cell-1'') (snapshot (closureOf [ddlCell, selectCell])) = Some ddlCell \<and>
   trim (query ddlCell) \<noteq> [] \<and>
   hd (cells (fst (executeCell (quietEnv networkDown) (closureOf [ddlCell, selectCell]) 0
        ''cell-1'' (storeOf [ddlCell, selectCell]))))
     \<in> set (cells (fst (executeCell (quietEnv networkDown) (closureOf [ddlCell, selectCell]) 0
        ''cell-1'' (storeOf [ddlCell, selectCell])))) \<and>
   id_cell (hd (cells (fst (executeCell (quietEnv networkDown) (closureOf [ddlCell, selectCell]) 0
        ''cell-1'' (storeOf [ddlCell, selectCell]))))) = ''cell-1'' \<and>
   \<not> isExecuting (hd (cells (fst (executeCell (quietEnv networkDown)
        (closureOf [ddlCell, selectCell]) 0 ''cell-1'' (storeOf [ddlCell, selectCell]))))) \<and>
   result (hd (cells (fst (executeCell (quietEnv networkDown)
        (closureOf [ddlCell, selectCell]) 0 ''cell-1'' (storeOf [ddlCell, selectCell]))))) \<noteq> None \<and>
   length (filter isSetResult (snd (executeCell (quietEnv networkDown)
        (closureOf [ddlCell, selectCell]) 0 ''cell-1'' (storeOf [ddlCell, selectCell])))) = 1"
proof -
  let ?out = "executeCell (quietEnv networkDown) (closureOf [ddlCell, selectCell]) 0
        ''cell-1'' (storeOf [ddlCell, selectCell])"
  have f: "find (\<lambda>c. id_cell c = ''cell-1'') (snapshot (closureOf [ddlCell, selectCell])) =
      Some ddlCell"
    by (simp add: closureOf_def ddlCell_def)
  have n: "trim (query ddlCell) \<noteq> []"
    by (simp add: ddlCell_def trim_def isWhiteSpace_def)
  note inst = executeCell_leaves_executing [OF f n, of "quietEnv networkDown" 0
      "storeOf [ddlCell, selectCell]"]
  have ids: "map id_cell (cells (fst ?out)) = [''cell-1'', ''cell-2'']"
    using inst
    by (simp add: awaiting_def quietEnv_def cells_setCell storeOf_def ddlCell_def
        selectCell_def)
  then have ne: "cells (fst ?out) \<noteq> []" by auto
  then have m: "hd (cells (fst ?out)) \<in> set (cells (fst ?out))" by (rule hd_in_set)
  have i: "id_cell (hd (cells (fst ?out))) = ''cell-1''"
    using ids ne by (simp add: hd_map [symmetric])
  from inst m i have "\<not> isExecuting (hd (cells (fst ?out))) \<and> result (hd (cells (fst ?out))) \<noteq> None"
    by blast
  with f n m i inst show ?thesis by blast
qed

text \<open>
  Claim C4, as stated, fails: when the request is rejected, the \<open>catch\<close>
  block attaches the error result and adds nothing to the history. Here the
  network is down.
\<close>

theorem executeCell_transport_failure_counterexample:
  "snd (executeCell (quietEnv networkDown) (closureOf [selectCell]) 0 ''cell-2''
          (storeOf [selectCell])) =
     [SetExecuting ''cell-2'', PostExecute ''SELECT * FROM t;'' ''session-7'',
      SetResult ''cell-2'' (errorResult None (Some ''Network Error''))] \<and>
   history (fst (executeCell (quietEnv networkDown) (closureOf [selectCell]) 0 ''cell-2''
          (storeOf [selectCell]))) = []"
  by (simp add: executeCell_def executeCell_settle.simps closureOf_def storeOf_def
      selectCell_def quietEnv_def networkDown_def trim_def isWhiteSpace_def Let_def
      history_setCell)

text \<open>
  Claim C4, amended. Every \<open>executeCell\<close> whose request resolves (the call
  returns a result) puts exactly one entry in front of the history (kept to the
  first \<open>MAX_HISTORY_ITEMS - 1\<close> older entries), whether the result reports
  success or not. When the request is rejected, by a network failure or by an
  answer of the engine with an error status, the history is left as it is.
\<close>

theorem executeCell_history_entry:
  assumes found: "find (\<lambda>c. id_cell c = cellId) (snapshot ctx) = Some cell"
      and nonblank: "trim (query cell) \<noteq> []"
  shows "history (fst (executeCell env ctx k cellId st)) =
           (case respond env k of
              Resolved r \<Rightarrow>
                historyItem cell (now env k) r #
                  slice0 (MAX_HISTORY_ITEMS ctx - 1) (history (awaiting env k cellId st))
            | Rejected a b \<Rightarrow> history (awaiting env k cellId st)) \<and>
         filter isAddHistory (snd (executeCell env ctx k cellId st)) =
           (case respond env k of
              Resolved r \<Rightarrow> [AddHistory (historyItem cell (now env k) r)]
            | Rejected a b \<Rightarrow> [])"
  by (cases "respond env k")
     (simp_all add: executeCell_run [OF found nonblank] settle_history settle_effects
        addHistory_def)

theorem executeCell_history_entry_witness:
  "find (\<lambda>c. id_cell c = ''cell-2'') (snapshot (closureOf [ddlCell, selectCell])) = Some selectCell \<and>
   trim (query selectCell) \<noteq> [] \<and>
   history (fst (executeCell (quietEnv (Resolved okResult)) (closureOf [ddlCell, selectCell]) 0
       ''cell-2'' (storeOf [ddlCell, selectCell]))) = [historyItem selectCell 5000 okResult] \<and>
   filter isAddHistory (snd (executeCell (quietEnv (Resolved okResult))
       (closureOf [ddlCell, selectCell]) 0 ''cell-2'' (storeOf [ddlCell, selectCell]))) =
     [AddHistory (historyItem selectCell 5000 okResult)] \<and>
   history (fst (executeCell (quietEnv (Resolved (okResult\<lparr>success := False\<rparr>)))
       (closureOf [ddlCell, selectCell]) 0 ''cell-2'' (storeOf [ddlCell, selectCell]))) =
     [historyItem selectCell 5000 (okResult\<lparr>success := False\<rparr>)] \<and>
   history (fst (executeCell (quietEnv engineError) (closureOf [ddlCell, selectCell]) 0
       ''cell-2'' (storeOf [ddlCell, selectCell]))) = [] \<and>
   filter isAddHistory (snd (executeCell (quietEnv engineError)
       (closureOf [ddlCell, selectCell]) 0 ''cell-2'' (storeOf [ddlCell, selectCell]))) = []"
proof -
  have f: "find (\<lambda>c. id_cell c = ''cell-2'') (snapshot (closureOf [ddlCell, selectCell])) =
      Some selectCell"
    by (simp add: closureOf_def ddlCell_def selectCell_def)
  have n: "trim (query selectCell) \<noteq> []"
    by (simp add: selectCell_def trim_def isWhiteSpace_def)
  have h: "history (awaiting (quietEnv r) 0 ''cell-2'' (storeOf [ddlCell, selectCell])) = []"
    for r
    by (simp add: awaiting_def quietEnv_def history_setCell storeOf_def)
  have r: "respond (quietEnv r) 0 = r" for r
    by (simp add: quietEnv_def)
  have t: "now (quietEnv r) 0 = 5000" for r
    by (simp add: quietEnv_def)
  have ok: "history (fst (executeCell (quietEnv (Resolved okResult))
       (closureOf [ddlCell, selectCell]) 0 ''cell-2'' (storeOf [ddlCell, selectCell]))) =
         [historyItem selectCell 5000 okResult] \<and>
     filter isAddHistory (snd (executeCell (quietEnv (Resolved okResult))
       (closureOf [ddlCell, selectCell]) 0 ''cell-2'' (storeOf [ddlCell, selectCell]))) =
         [AddHistory (historyItem selectCell 5000 okResult)]"
    using executeCell_history_entry [OF f n, of "quietEnv (Resolved okResult)" 0
        "storeOf [ddlCell, selectCell]"]
    by (simp add: h r t slice0_def)
  have failed: "history (fst (executeCell (quietEnv (Resolved (okResult\<lparr>success := False\<rparr>)))
       (closureOf [ddlCell, selectCell]) 0 ''cell-2'' (storeOf [ddlCell, selectCell]))) =
         [historyItem selectCell 5000 (okResult\<lparr>success := False\<rparr>)]"
    using executeCell_history_entry [OF f n,
        of "quietEnv (Resolved (okResult\<lparr>success := False\<rparr>))" 0
        "storeOf [ddlCell, selectCell]"]
    by (simp add: h r t slice0_def)
  have refused: "history (fst (executeCell (quietEnv engineError)
       (closureOf [ddlCell, selectCell]) 0 ''cell-2'' (storeOf [ddlCell, selectCell]))) = [] \<and>
     filter isAddHistory (snd (executeCell (quietEnv engineError)
       (closureOf [ddlCell, selectCell]) 0 ''cell-2'' (storeOf [ddlCell, selectCell]))) = []"
    using executeCell_history_entry [OF f n, of "quietEnv engineError" 0
        "storeOf [ddlCell, selectCell]"]
    by (simp add: h r t engineError_def)
  from f n ok failed refused show ?thesis by blast
qed

text \<open>
  Claim C8. After a request was sent, \<open>executeCell\<close> starts a table refresh
  exactly when the engine answered with a result that reports success and the
  query, trimmed and put in upper case, begins with \<open>CREATE TABLE\<close> or
  \<open>DROP TABLE\<close>. A rejected request and a result that reports failure start
  none. The statement with leading blanks and lower or mixed case is recognised;
  the \<open>SELECT\<close> statement is not.
\<close>

theorem executeCell_refresh_iff:
  assumes found: "find (\<lambda>c. id_cell c = cellId) (snapshot ctx) = Some cell"
      and nonblank: "trim (query cell) \<noteq> []"
  shows "(LoadTables \<in> set (snd (executeCell env ctx k cellId st))) =
           (case respond env k of
              Resolved r \<Rightarrow> success r \<and> isDDL (query cell)
            | Rejected a b \<Rightarrow> False) \<and>
         isDDL ''  create table t (id int primary key);'' \<and>
         isDDL ''  Create Table t (id INT primary key);'' \<and>
         isDDL ''drop table t'' \<and>
         \<not> isDDL ''SELECT * FROM t;''"
proof -
  have "(LoadTables \<in> set (snd (executeCell env ctx k cellId st))) =
           (case respond env k of
              Resolved r \<Rightarrow> success r \<and> isDDL (query cell)
            | Rejected a b \<Rightarrow> False)"
    by (cases "respond env k")
       (simp_all add: executeCell_run [OF found nonblank] settle_effects)
  moreover have "isDDL ''  create table t (id int primary key);''"
    by (simp add: isDDL_def trim_def toUpperCase_def toUpperCase_char_def startsWith_def
        isWhiteSpace_def)
  moreover have "isDDL ''  Create Table t (id INT primary key);''"
    by (simp add: isDDL_def trim_def toUpperCase_def toUpperCase_char_def startsWith_def
        isWhiteSpace_def)
  moreover have "isDDL ''drop table t''"
    by (simp add: isDDL_def trim_def toUpperCase_def toUpperCase_char_def startsWith_def
        isWhiteSpace_def)
  moreover have "\<not> isDDL ''SELECT * FROM t;''"
    by (simp add: isDDL_def trim_def toUpperCase_def toUpperCase_char_def startsWith_def
        isWhiteSpace_def)
  ultimately show ?thesis by blast
qed

theorem executeCell_refresh_iff_witness:
  "find (\<lambda>c. id_cell c = ''cell-1'') (snapshot (closureOf [ddlCell, selectCell])) = Some ddlCell \<and>
   trim (query ddlCell) \<noteq> [] \<and>
   LoadTables \<in> set (snd (executeCell (quietEnv (Resolved okResult))
       (closureOf [ddlCell, selectCell]) 0 ''cell-1'' (storeOf [ddlCell, selectCell]))) \<and>
   LoadTables \<notin> set (snd (executeCell (quietEnv (Resolved (okResult\<lparr>success := False\<rparr>)))
       (closureOf [ddlCell, selectCell]) 0 ''cell-1'' (storeOf [ddlCell, selectCell]))) \<and>
   LoadTables \<notin> set (snd (executeCell (quietEnv networkDown)
       (closureOf [ddlCell, selectCell]) 0 ''cell-1'' (storeOf [ddlCell, selectCell])))"
proof -
  have f: "find (\<lambda>c. id_cell c = ''cell-1'') (snapshot (closureOf [ddlCell, selectCell])) =
      Some ddlCell"
    by (simp add: closureOf_def ddlCell_def)
  have n: "trim (query ddlCell) \<noteq> []"
    by (simp add: ddlCell_def trim_def isWhiteSpace_def)
  have d: "isDDL (query ddlCell)"
    using executeCell_refresh_iff [OF f n] by (simp add: ddlCell_def)
  have a: "LoadTables \<in> set (snd (executeCell (quietEnv (Resolved okResult))
       (closureOf [ddlCell, selectCell]) 0 ''cell-1'' (storeOf [ddlCell, selectCell])))"
    using executeCell_refresh_iff [OF f n, of "quietEnv (Resolved okResult)" 0
        "storeOf [ddlCell, selectCell]"] d
    by (simp add: quietEnv_def okResult_def)
  have b: "LoadTables \<notin> set (snd (executeCell (quietEnv (Resolved (okResult\<lparr>success := False\<rparr>)))
       (closureOf [ddlCell, selectCell]) 0 ''cell-1'' (storeOf [ddlCell, selectCell])))"
    using executeCell_refresh_iff [OF f n,
        of "quietEnv (Resolved (okResult\<lparr>success := False\<rparr>))" 0
        "storeOf [ddlCell, selectCell]"]
    by (simp add: quietEnv_def)
  have c: "LoadTables \<notin> set (snd (executeCell (quietEnv networkDown)
       (closureOf [ddlCell, selectCell]) 0 ''cell-1'' (storeOf [ddlCell, selectCell])))"
    using executeCell_refresh_iff [OF f n, of "quietEnv networkDown" 0
        "storeOf [ddlCell, selectCell]"]
    by (simp add: quietEnv_def networkDown_def)
  from f n a b c show ?thesis by blast
qed

section \<open>Running all cells\<close>

text \<open>
  The table refresh that a cell triggers is started and not awaited. In a run
  over a \<open>CREATE TABLE\<close> cell and a \<open>SELECT\<close> cell in which the answer to
  the table request does not arrive during the run, the whole run ends while
  the refresh started by the first cell is still loading.
\<close>

lemma executeAllCells_refresh_not_awaited:
  "snd (executeAllCells (quietEnv (Resolved okResult)) (closureOf [ddlCell, selectCell]) 0
          (storeOf [ddlCell, selectCell])) =
     [SetExecuting ''cell-1'',
      PostExecute ''  create table t (id int primary key);'' ''session-7'',
      SetResult ''cell-1'' okResult, AddHistory (historyItem ddlCell 5000 okResult),
      LoadTables, Sleep 100,
      SetExecuting ''cell-2'', PostExecute ''SELECT * FROM t;'' ''session-7'',
      SetResult ''cell-2'' okResult, AddHistory (historyItem selectCell 5000 okResult),
      Sleep 100] \<and>
   isLoadingTables (fst (executeAllCells (quietEnv (Resolved okResult))
          (closureOf [ddlCell, selectCell]) 0 (storeOf [ddlCell, selectCell]))) \<and>
   tables (fst (executeAllCells (quietEnv (Resolved okResult))
          (closureOf [ddlCell, selectCell]) 0 (storeOf [ddlCell, selectCell]))) = []"
  by (simp add: executeAllCells_def executeCell_def executeCell_settle.simps closureOf_def
      storeOf_def ddlCell_def selectCell_def quietEnv_def okResult_def trim_def
      isWhiteSpace_def isDDL_def toUpperCase_def toUpperCase_char_def startsWith_def Let_def
      setCell_def loadTables_dispatch_def historyItem_def)

text \<open>
  Claim C1, as stated, fails in one point: the history entry is not part of
  every completion. When the request of the first cell is rejected, the request
  of the second cell is sent after the result was attached and 100 ms have
  passed, and no history entry for the first cell was or will be added.
\<close>

theorem executeAllCells_no_history_counterexample:
  "snd (executeAllCells (quietEnv engineError) (closureOf [ddlCell, selectCell]) 0
          (storeOf [ddlCell, selectCell])) =
     [SetExecuting ''cell-1'',
      PostExecute ''  create table t (id int primary key);'' ''session-7'',
      SetResult ''cell-1''
        (errorResult (Some ''Table not found'') (Some ''Request failed with status code 400'')),
      Sleep 100,
      SetExecuting ''cell-2'', PostExecute ''SELECT * FROM t;'' ''session-7'',
      SetResult ''cell-2''
        (errorResult (Some ''Table not found'') (Some ''Request failed with status code 400'')),
      Sleep 100] \<and>
   history (fst (executeAllCells (quietEnv engineError) (closureOf [ddlCell, selectCell]) 0
          (storeOf [ddlCell, selectCell]))) = []"
  by (simp add: executeAllCells_def executeCell_def executeCell_settle.simps closureOf_def
      storeOf_def ddlCell_def selectCell_def quietEnv_def engineError_def trim_def
      isWhiteSpace_def Let_def setCell_def)

text \<open>
  Claim C1, amended. \<open>executeAllCells\<close> runs the cells one after the other,
  whatever the answers to the requests and whatever other tasks do in between:
  the request of a cell is sent only after the cell before it has had its
  result attached, its history entry added if its request resolved (a rejected
  request adds none), its table refresh started if it triggered one (the refresh
  is not awaited), and 100 ms have passed. When the ids of the array are
  distinct, the operations of the run are exactly those of its non-blank cells,
  in the order of the array.
\<close>

theorem executeAllCells_sequential:
  "sequentialRun Ready (snd (executeAllCells env ctx k st)) = Some Ready \<and>
   (distinct (map id_cell (snapshot ctx)) \<longrightarrow>
      snd (executeAllCells env ctx k st) =
        runTrace env ctx k (filter nonBlank (snapshot ctx)))"
proof
  show "sequentialRun Ready (snd (executeAllCells env ctx k st)) = Some Ready"
    by (simp only: snd_executeAllCells sequentialRun_runLoop)
next
  show "distinct (map id_cell (snapshot ctx)) \<longrightarrow>
      snd (executeAllCells env ctx k st) =
        runTrace env ctx k (filter nonBlank (snapshot ctx))"
    by (rule impI) (rule trace_executeAllCells)
qed

theorem executeAllCells_sequential_witness:
  "distinct (map id_cell (snapshot (closureOf [ddlCell, blankCell, selectCell]))) \<and>
   sequentialRun Ready (snd (executeAllCells (quietEnv (Resolved okResult))
       (closureOf [ddlCell, blankCell, selectCell]) 0
       (storeOf [ddlCell, blankCell, selectCell]))) = Some Ready \<and>
   snd (executeAllCells (quietEnv (Resolved okResult))
       (closureOf [ddlCell, blankCell, selectCell]) 0
       (storeOf [ddlCell, blankCell, selectCell])) =
     [SetExecuting ''cell-1'',
      PostExecute ''  create table t (id int primary key);'' ''session-7'',
      SetResult ''cell-1'' okResult, AddHistory (historyItem ddlCell 5000 okResult),
      LoadTables, Sleep 100,
      SetExecuting ''cell-2'', PostExecute ''SELECT * FROM t;'' ''session-7'',
      SetResult ''cell-2'' okResult, AddHistory (historyItem selectCell 5000 okResult),
      Sleep 100]"
proof -
  have d: "distinct (map id_cell (snapshot (closureOf [ddlCell, blankCell, selectCell])))"
    by (simp add: closureOf_def ddlCell_def blankCell_def selectCell_def)
  have n: "filter nonBlank (snapshot (closureOf [ddlCell, blankCell, selectCell])) =
      [ddlCell, selectCell]"
    by (simp add: closureOf_def ddlCell_def blankCell_def selectCell_def nonBlank_def trim_def
        isWhiteSpace_def)
  have q: "isDDL (query ddlCell) \<and> \<not> isDDL (query selectCell)"
    by (simp add: ddlCell_def selectCell_def isDDL_def trim_def toUpperCase_def
        toUpperCase_char_def startsWith_def isWhiteSpace_def)
  have m: "runTrace (quietEnv (Resolved okResult)) (closureOf [ddlCell, blankCell, selectCell]) 0
        [ddlCell, selectCell] =
     [SetExecuting ''cell-1'',
      PostExecute ''  create table t (id int primary key);'' ''session-7'',
      SetResult ''cell-1'' okResult, AddHistory (historyItem ddlCell 5000 okResult),
      LoadTables, Sleep 100,
      SetExecuting ''cell-2'', PostExecute ''SELECT * FROM t;'' ''session-7'',
      SetResult ''cell-2'' okResult, AddHistory (historyItem selectCell 5000 okResult),
      Sleep 100]"
    using q
    by (simp add: cellTrace_def quietEnv_def closureOf_def)
       (simp add: ddlCell_def selectCell_def okResult_def)
  note inst = executeAllCells_sequential [of "quietEnv (Resolved okResult)"
        "closureOf [ddlCell, blankCell, selectCell]" 0
        "storeOf [ddlCell, blankCell, selectCell]"]
  from inst have a: "sequentialRun Ready (snd (executeAllCells (quietEnv (Resolved okResult))
       (closureOf [ddlCell, blankCell, selectCell]) 0
       (storeOf [ddlCell, blankCell, selectCell]))) = Some Ready"
    by (rule conjunct1)
  from inst d have "snd (executeAllCells (quietEnv (Resolved okResult))
       (closureOf [ddlCell, blankCell, selectCell]) 0
       (storeOf [ddlCell, blankCell, selectCell])) =
     runTrace (quietEnv (Resolved okResult)) (closureOf [ddlCell, blankCell, selectCell]) 0
       (filter nonBlank (snapshot (closureOf [ddlCell, blankCell, selectCell])))"
    by blast
  then have b: "snd (executeAllCells (quietEnv (Resolved okResult))
       (closureOf [ddlCell, blankCell, selectCell]) 0
       (storeOf [ddlCell, blankCell, selectCell])) =
     [SetExecuting ''cell-1'',
      PostExecute ''  create table t (id int primary key);'' ''session-7'',
      SetResult ''cell-1'' okResult, AddHistory (historyItem ddlCell 5000 okResult),
      LoadTables, Sleep 100,
      SetExecuting ''cell-2'', PostExecute ''SELECT * FROM t;'' ''session-7'',
      SetResult ''cell-2'' okResult, AddHistory (historyItem selectCell 5000 okResult),
      Sleep 100]"
    by (simp only: n m)
  from d a b show ?thesis by blast
qed

text \<open>
  Claim C6. \<open>executeAllCells\<close> never stops at a failing cell. For every answer
  of the engine to every request (results that report failure and rejected
  requests included) and an array with distinct ids, the request of every
  non-blank cell of the array is sent, and as many requests are sent as there
  are non-blank cells.
\<close>

theorem executeAllCells_fail_soft:
  assumes "distinct (map id_cell (snapshot ctx))"
      and "c \<in> set (snapshot ctx)" and "nonBlank c"
  shows "PostExecute (query c) (sessionId ctx) \<in> set (snd (executeAllCells env ctx k st)) \<and>
         length (filter isPostExecute (snd (executeAllCells env ctx k st))) =
           length (filter nonBlank (snapshot ctx))"
proof -
  have eq: "filter isPostExecute (snd (executeAllCells env ctx k st)) =
        map (\<lambda>c. PostExecute (query c) (sessionId ctx)) (filter nonBlank (snapshot ctx))"
    using assms(1) by (rule posts_executeAllCells)
  have "PostExecute (query c) (sessionId ctx) \<in>
      set (map (\<lambda>c. PostExecute (query c) (sessionId ctx)) (filter nonBlank (snapshot ctx)))"
    using assms(2,3) by simp
  then have "PostExecute (query c) (sessionId ctx) \<in>
      set (filter isPostExecute (snd (executeAllCells env ctx k st)))"
    by (simp only: eq)
  then have "PostExecute (query c) (sessionId ctx) \<in> set (snd (executeAllCells env ctx k st))"
    by simp
  moreover have "length (filter isPostExecute (snd (executeAllCells env ctx k st))) =
           length (filter nonBlank (snapshot ctx))"
    by (simp only: eq length_map)
  ultimately show ?thesis by blast
qed

theorem executeAllCells_fail_soft_witness:
  "distinct (map id_cell (snapshot (closureOf [ddlCell, selectCell]))) \<and>
   selectCell \<in> set (snapshot (closureOf [ddlCell, selectCell])) \<and>
   nonBlank selectCell \<and>
   respond (quietEnv networkDown) 0 = Rejected None (Some ''Network Error'') \<and>
   PostExecute ''SELECT * FROM t;'' ''session-7''
     \<in> set (snd (executeAllCells (quietEnv networkDown) (closureOf [ddlCell, selectCell]) 0
          (storeOf [ddlCell, selectCell]))) \<and>
   length (filter isPostExecute (snd (executeAllCells (quietEnv networkDown)
          (closureOf [ddlCell, selectCell]) 0 (storeOf [ddlCell, selectCell])))) = 2"
proof -
  have d: "distinct (map id_cell (snapshot (closureOf [ddlCell, selectCell])))"
    by (simp add: closureOf_def ddlCell_def selectCell_def)
  have m: "selectCell \<in> set (snapshot (closureOf [ddlCell, selectCell]))"
    by (simp add: closureOf_def)
  have n: "nonBlank selectCell"
    by (simp add: nonBlank_def selectCell_def trim_def isWhiteSpace_def)
  have r: "respond (quietEnv networkDown) 0 = Rejected None (Some ''Network Error'')"
    by (simp add: quietEnv_def networkDown_def)
  have q: "query selectCell = ''SELECT * FROM t;''"
    by (simp add: selectCell_def)
  have s: "sessionId (closureOf [ddlCell, selectCell]) = ''session-7''"
    by (simp add: closureOf_def)
  have l: "length (filter nonBlank (snapshot (closureOf [ddlCell, selectCell]))) = 2"
    by (simp add: closureOf_def nonBlank_def ddlCell_def selectCell_def trim_def
        isWhiteSpace_def)
  show ?thesis
    using d m n r
      executeAllCells_fail_soft [OF d m n, of "quietEnv networkDown" 0
        "storeOf [ddlCell, selectCell]"]
    by (simp only: q s l simp_thms)
qed

section \<open>The history\<close>

lemma addHistory_Cons: "1 \<le> H \<Longrightarrow> addHistory H e h = e # take (nat H - 1) h"
  by (simp add: addHistory_def slice0_def nat_diff_distrib)

lemma length_addHistory:
  "1 \<le> H \<Longrightarrow> length (addHistory H e h) = min (nat H) (Suc (length h))"
  by (simp add: addHistory_Cons min_def) arith

lemma addHistoryAll_snoc:
  "addHistoryAll H (items @ [e]) h = addHistory H e (addHistoryAll H items h)"
  by (simp add: addHistoryAll_def)

lemma length_addHistoryAll:
  assumes "1 \<le> H" and "items \<noteq> []"
  shows "length (addHistoryAll H items h) = min (nat H) (length h + length items)"
  using assms(2)
proof (induction items rule: rev_induct)
  case Nil
  then show ?case by simp
next
  case (snoc e items)
  show ?case
  proof (cases "items = []")
    case True
    then show ?thesis
      using assms(1) by (simp add: addHistoryAll_def length_addHistory)
  next
    case False
    then have "length (addHistoryAll H items h) = min (nat H) (length h + length items)"
      by (rule snoc.IH)
    then show ?thesis
      using assms(1) by (simp add: addHistoryAll_snoc length_addHistory)
  qed
qed

lemma hd_addHistoryAll:
  assumes "items \<noteq> []"
  shows "hd (addHistoryAll H items h) = last items"
proof -
  from assms obtain xs x where "items = xs @ [x]"
    by (cases items rule: rev_cases) auto
  then show ?thesis
    by (simp add: addHistoryAll_snoc addHistory_def)
qed

text \<open>
  Claim C7. With a maximum \<open>H\<close> of at least one entry, adding an entry puts it
  in front of the first \<open>H - 1\<close> older entries, so the history never has more
  than \<open>H\<close> entries after an addition, whatever its length before. After
  \<open>H + k\<close> additions with \<open>k \<ge> 1\<close> it has exactly \<open>H\<close> entries, and the
  first one is the entry added last.
\<close>

theorem history_bounded_most_recent_first:
  assumes "1 \<le> H" and "length items = nat H + k" and "1 \<le> k"
  shows "addHistory H e prev = e # take (nat H - 1) prev \<and>
         length (addHistory H e prev) \<le> nat H \<and>
         length (addHistoryAll H items prev) = nat H \<and>
         hd (addHistoryAll H items prev) = last items"
proof -
  have ne: "items \<noteq> []"
    using assms(2,3) by auto
  have "length (addHistoryAll H items prev) = min (nat H) (length prev + length items)"
    using assms(1) ne by (rule length_addHistoryAll)
  then have "length (addHistoryAll H items prev) = nat H"
    using assms(2) by simp
  moreover have "length (addHistory H e prev) \<le> nat H"
    using assms(1) by (simp add: length_addHistory)
  moreover have "addHistory H e prev = e # take (nat H - 1) prev"
    using assms(1) by (rule addHistory_Cons)
  moreover have "hd (addHistoryAll H items prev) = last items"
    using ne by (rule hd_addHistoryAll)
  ultimately show ?thesis by blast
qed

theorem history_bounded_most_recent_first_witness:
  "(1::int) \<le> 2 \<and> length [entry ''a'', entry ''b'', entry ''c''] = nat 2 + 1 \<and> (1::nat) \<le> 1 \<and>
   addHistory 2 (entry ''z'') [entry ''y'', entry ''x''] = [entry ''z'', entry ''y''] \<and>
   length (addHistory 2 (entry ''z'') [entry ''y'', entry ''x'']) \<le> nat 2 \<and>
   length (addHistoryAll 2 [entry ''a'', entry ''b'', entry ''c''] [entry ''y'', entry ''x'']) = nat 2 \<and>
   hd (addHistoryAll 2 [entry ''a'', entry ''b'', entry ''c''] [entry ''y'', entry ''x'']) = entry ''c''"
proof -
  have a: "(1::int) \<le> 2" by simp
  have b: "length [entry ''a'', entry ''b'', entry ''c''] = nat 2 + 1" by simp
  have c: "(1::nat) \<le> 1" by simp
  show ?thesis
    using a b c
      history_bounded_most_recent_first [OF a b c, of "entry ''z''" "[entry ''y'', entry ''x'']"]
    by simp
qed

section \<open>The cell store\<close>

text \<open>
  What holds of the store commands. Deleting is a no-op when the array of the
  closure has one cell, and one click never empties a store whose ids are
  distinct.
\<close>

lemma deleteCell_single_noop: "length closureCells \<le> 1 \<Longrightarrow> deleteCell closureCells i st = st"
  by (simp add: deleteCell_def)

lemma cells_click_Add: "cells (click (Add t) st) = cells st @ [newCell t]"
  by (simp add: addCell_def)

lemma cells_click_Delete:
  "cells (click (Delete i) st) =
     (if length (cells st) \<le> 1 then cells st else filter (\<lambda>c. id_cell c \<noteq> i) (cells st))"
  by (simp add: deleteCell_def)

lemma filter_id_at_most_one:
  "distinct (map id_cell cs) \<Longrightarrow> length (filter (\<lambda>c. id_cell c = i) cs) \<le> 1"
  by (induction cs) (auto simp: image_iff filter_empty_conv)

lemma click_keeps_a_cell:
  assumes "distinct (map id_cell (cells st))" and "cells st \<noteq> []"
  shows "cells (click cmd st) \<noteq> []"
proof (cases cmd)
  case (Add t)
  then show ?thesis by (simp add: addCell_def)
next
  case (Delete i)
  show ?thesis
  proof (cases "length (cells st) \<le> 1")
    case True
    with Delete assms(2) show ?thesis by (simp add: deleteCell_def)
  next
    case False
    have "length (filter (\<lambda>c. id_cell c = i) (cells st)) +
          length (filter (\<lambda>c. \<not> id_cell c = i) (cells st)) = length (cells st)"
      by (rule sum_length_filter_compl)
    moreover have "length (filter (\<lambda>c. id_cell c = i) (cells st)) \<le> 1"
      using assms(1) by (rule filter_id_at_most_one)
    ultimately have "1 \<le> length (filter (\<lambda>c. id_cell c \<noteq> i) (cells st))"
      using False by simp
    then have "filter (\<lambda>c. id_cell c \<noteq> i) (cells st) \<noteq> []"
      by auto
    with Delete False show ?thesis by (simp add: deleteCell_def)
  qed
qed

text \<open>
  Claim C9 is not met by the code. The id of a new cell is the clock reading in
  milliseconds at the click, so two clicks on Add Cell within one millisecond
  create two live cells with the same id.
\<close>

theorem same_millisecond_ids:
  "map id_cell (cells (clicks [Add 1700000000000, Add 1700000000000]
      (initialState ''SELECT * FROM users;''))) =
     [''cell-1'', ''cell-1700000000000'', ''cell-1700000000000''] \<and>
   \<not> distinct (map id_cell (cells (clicks [Add 1700000000000, Add 1700000000000]
      (initialState ''SELECT * FROM users;''))))"
  by (simp add: clicks_def addCell_def initialState_def newCell_def toString_def digits.simps
      digit_def)

text \<open>
  Claim C3 is not met by the code. \<open>deleteCell\<close> removes every cell that has
  the given id. After two cells were created within one millisecond and the
  first cell was deleted, deleting one of the two removes both, and the store
  is empty.
\<close>

theorem delete_empties_store:
  "cells (clicks [Add 1700000000000, Add 1700000000000, Delete ''cell-1'',
      Delete ''cell-1700000000000''] (initialState ''SELECT * FROM users;'')) = []"
  by (simp add: clicks_def addCell_def deleteCell_def initialState_def newCell_def toString_def
      digits.simps digit_def)


end
